theory Spec2Isabelle
  imports Main "HOL-Library.Multiset"
begin

section \<open>Configuration\<close>

text \<open>
  The module \<^verbatim>\<open>config\<close> is imported by \<^verbatim>\<open>imageserver.py\<close> and read through its
  attributes. Its values are taken as a parameter of every operation. Lines 13 to 19 of
  \<^verbatim>\<open>imageserver.py\<close> copy some of them into \<^verbatim>\<open>application.config\<close> once, at start; the
  copy is read through the same field here (\<^verbatim>\<open>ALLOWED_EXTENSIONS\<close> is \<^verbatim>\<open>file_extentions\<close>,
  \<^verbatim>\<open>UPLOAD_DIRECTORY\<close> is \<^verbatim>\<open>upload_directory\<close>, \<^verbatim>\<open>PATH\<close> is \<^verbatim>\<open>app_path\<close>, \<^verbatim>\<open>USER\<close> and
  \<^verbatim>\<open>PASSWORD\<close> are \<^verbatim>\<open>app_username\<close> and \<^verbatim>\<open>app_password\<close>).
\<close>

record config =
  file_extentions :: "string list"
  upload_directory :: string
  default_url_length :: nat
  url_characters :: string
  app_path :: string
  app_username :: string
  app_password :: string
  aws_s3_endpoint :: string
  aws_s3_bucket_id :: string
  aws_s3_bucket_path :: string

section \<open>Strings and paths of the Python library\<close>

text \<open>
  Strings are ASCII text, one \<^typ>\<open>char\<close> per character. \<^verbatim>\<open>str.lower\<close> maps the
  letters A to Z to a to z and keeps every other ASCII character.
\<close>

definition lower_char :: "char \<Rightarrow> char" where
  "lower_char ch =
     (case map_of (zip ''ABCDEFGHIJKLMNOPQRSTUVWXYZ'' ''abcdefghijklmnopqrstuvwxyz'') ch of
        Some l \<Rightarrow> l
      | None \<Rightarrow> ch)"

definition lower :: "string \<Rightarrow> string" where
  "lower s = map lower_char s"

text \<open>\<^verbatim>\<open>s.rsplit('.', 1)[1]\<close> for a string that holds a dot: what follows the last dot.\<close>

definition after_last_dot :: "string \<Rightarrow> string" where
  "after_last_dot s = rev (takeWhile (\<lambda>ch. ch \<noteq> CHR ''.'') (rev s))"

text \<open>\<^verbatim>\<open>s.split('.')[0]\<close>: what precedes the first dot.\<close>

definition before_first_dot :: "string \<Rightarrow> string" where
  "before_first_dot s = takeWhile (\<lambda>ch. ch \<noteq> CHR ''.'') s"

text \<open>\<^verbatim>\<open>sep.join(xs)\<close>.\<close>

fun join :: "string \<Rightarrow> string list \<Rightarrow> string" where
  "join sep [] = []"
| "join sep [x] = x"
| "join sep (x # y # ys) = x @ sep @ join sep (y # ys)"

text \<open>
  \<^verbatim>\<open>os.path.join(a, b)\<close> of \<^verbatim>\<open>posixpath\<close>: an absolute \<^verbatim>\<open>b\<close> replaces \<^verbatim>\<open>a\<close>; an empty
  \<^verbatim>\<open>a\<close>, or one that ends with a slash, is followed by \<^verbatim>\<open>b\<close> at once; otherwise a
  slash comes between the two.
\<close>

definition os_path_join :: "string \<Rightarrow> string \<Rightarrow> string" where
  "os_path_join a b =
     (if b \<noteq> [] \<and> hd b = CHR ''/'' then b
      else if a = [] \<or> last a = CHR ''/'' then a @ b
      else a @ ''/'' @ b)"

subsection \<open>\<^verbatim>\<open>werkzeug.utils.secure_filename\<close>\<close>

text \<open>
  The name that the deletion view sanitises is a Python \<^verbatim>\<open>str\<close> of any code points,
  so it is a list of code points here; \<open>codepoints\<close> gives those of an ASCII text.
\<close>

type_synonym codepoint = nat

definition codepoints :: "string \<Rightarrow> codepoint list" where
  "codepoints s = map of_char s"

text \<open>
  The library function, on a POSIX host (\<^verbatim>\<open>os.path.sep\<close> is the slash, \<^verbatim>\<open>os.path.altsep\<close>
  is \<^verbatim>\<open>None\<close>, \<^verbatim>\<open>os.name\<close> is not \<^verbatim>\<open>nt\<close>):
  \<^verbatim>\<open>
  filename = unicodedata.normalize("NFKD", filename)
  filename = filename.encode("ascii", "ignore").decode("ascii")
  for sep in os.path.sep, os.path.altsep:
      if sep:
          filename = filename.replace(sep, " ")
  filename = str(_filename_ascii_strip_re.sub("", "_".join(filename.split()))).strip("._")
  \<close>
  with \<^verbatim>\<open>_filename_ascii_strip_re = re.compile(r"[^A-Za-z0-9_.-]")\<close>.

  The compatibility decomposition of \<^verbatim>\<open>unicodedata\<close> is a table of the Unicode standard;
  it is the parameter \<open>nfkd\<close>, which gives the full decomposition of a code point from
  128 on. A code point below 128 is its own decomposition. The normalisation decomposes
  code point by code point and then reorders combining marks only, none of which is
  ASCII; the encoding drops every code point from 128 on. So the ASCII text that is left
  is, code point by code point, the ASCII part of the decomposition.
\<close>

definition ascii_fold :: "(codepoint \<Rightarrow> codepoint list) \<Rightarrow> codepoint \<Rightarrow> string" where
  "ascii_fold nfkd n =
     (if n < 128 then [char_of n]
      else map char_of (filter (\<lambda>m. m < 128) (nfkd n)))"

definition ascii_text :: "(codepoint \<Rightarrow> codepoint list) \<Rightarrow> codepoint list \<Rightarrow> string" where
  "ascii_text nfkd name = concat (map (ascii_fold nfkd) name)"

text \<open>The ASCII characters on which \<^verbatim>\<open>str.split()\<close> splits.\<close>

definition is_space :: "char \<Rightarrow> bool" where
  "is_space ch =
     (ch \<in> set [CHR 0x09, CHR 0x0A, CHR 0x0B, CHR 0x0C, CHR 0x0D,
                CHR 0x1C, CHR 0x1D, CHR 0x1E, CHR 0x1F, CHR 0x20])"

definition filename_char :: "char \<Rightarrow> bool" where
  "filename_char ch =
     (ch \<in> set ''ABCDEFGHIJKLMNOPQRSTUVWXYZabcdefghijklmnopqrstuvwxyz0123456789_.-'')"

text \<open>
  \<^verbatim>\<open>s.split()\<close>: the maximal runs of characters that are not whitespace, in order. The
  first argument is the run read so far.
\<close>

fun split_ws :: "string \<Rightarrow> string \<Rightarrow> string list" where
  "split_ws cur [] = (if cur = [] then [] else [cur])"
| "split_ws cur (ch # cs) =
     (if is_space ch
      then (if cur = [] then split_ws [] cs else cur # split_ws [] cs)
      else split_ws (cur @ [ch]) cs)"

text \<open>\<^verbatim>\<open>s.strip(chars)\<close>, for the characters that satisfy \<open>P\<close>.\<close>

definition strip :: "(char \<Rightarrow> bool) \<Rightarrow> string \<Rightarrow> string" where
  "strip P s = rev (dropWhile P (rev (dropWhile P s)))"

definition secure_filename :: "(codepoint \<Rightarrow> codepoint list) \<Rightarrow> codepoint list \<Rightarrow> string" where
  "secure_filename nfkd name =
     (let ascii = ascii_text nfkd name;
          spaced = map (\<lambda>ch. if ch = CHR ''/'' then CHR '' '' else ch) ascii;
          joined = join ''_'' (split_ws [] spaced);
          kept = filter filename_char joined
      in strip (\<lambda>ch. ch = CHR ''.'' \<or> ch = CHR ''_'') kept)"

section \<open>The registry, the object store and the staging directory\<close>

text \<open>
  A row of the table \<^verbatim>\<open>database.Image\<close>, with the columns that \<^verbatim>\<open>add_to_database\<close>
  (line 73) writes. \<^verbatim>\<open>url\<close> is the shortcode; \<^verbatim>\<open>filename\<close> is the key of the remote
  object.
\<close>

record image_row =
  image_guid :: string
  bucket :: string
  filename :: string
  url :: string
  accessability :: int
  passphrase :: "string option"
  timestamp :: int

text \<open>
  What the operations act on: the rows of the table in the order of their insertion, the
  objects of the remote store by bucket and key, and the files of the local disk by
  path.
\<close>

record world =
  db :: "image_row list"
  s3 :: "string \<times> string \<rightharpoonup> string"
  disk :: "string \<rightharpoonup> string"

datatype exn =
    BadRequestKeyError
  | IntegrityError
  | OperationalError
  | IOError
  | FileNotFoundError
  | S3Error

text \<open>
  What one request meets outside the program: the successive values that
  \<^verbatim>\<open>generate_random_string()\<close> returns (line 54, \<^verbatim>\<open>random.choice\<close> over the alphabet),
  the value of \<^verbatim>\<open>uuid.uuid4()\<close>, the value of \<^verbatim>\<open>int(time.time())\<close>, which of the calls to
  the disk, the object store and the registry raise, and the rows that other requests
  commit after this request's check of its shortcode (line 152) and before its own commit
  (line 161).
\<close>

record env =
  random_strings :: "string list"
  uuid4 :: string
  now :: int
  save_fails :: bool
  s3_upload_fails :: bool
  create_fails :: bool
  remove_fails :: bool
  s3_delete_fails :: bool
  delete_instance_fails :: bool
  racing :: "image_row list"

subsection \<open>The registry\<close>

text \<open>\<^verbatim>\<open>database.Image.select().where(database.Image.url == u)\<close>.\<close>

definition select_where_url :: "image_row list \<Rightarrow> string \<Rightarrow> image_row list" where
  "select_where_url rows u = filter (\<lambda>row. url row = u) rows"

text \<open>\<^verbatim>\<open>query.exists()\<close>.\<close>

definition exists :: "image_row list \<Rightarrow> bool" where
  "exists query = (query \<noteq> [])"

text \<open>
  Modelled from the spec: \<^verbatim>\<open>database.Image.create\<close>, of the module \<^verbatim>\<open>database\<close> that is
  not among the sources. Section 5 of the specification: the registry's create enforces
  the uniqueness of the shortcode as a hard constraint. A row whose shortcode is taken is
  refused; any other row is appended.
\<close>

definition create :: "image_row \<Rightarrow> image_row list \<Rightarrow> exn + image_row list" where
  "create row rows =
     (if exists (select_where_url rows (url row)) then Inl IntegrityError
      else Inr (rows @ [row]))"

text \<open>
  Modelled from the spec: \<^verbatim>\<open>image.delete_instance()\<close>, of the same module. The row that
  the query returned is removed, and no other.
\<close>

definition delete_instance :: "image_row \<Rightarrow> image_row list \<Rightarrow> image_row list" where
  "delete_instance row rows = remove1 row rows"

text \<open>
  The commits of the other requests: each goes through \<open>create\<close>, and one that is refused
  leaves the table as it was.
\<close>

fun commit_racing :: "image_row list \<Rightarrow> image_row list \<Rightarrow> image_row list" where
  "commit_racing [] rows = rows"
| "commit_racing (other # others) rows =
     (case create other rows of
        Inl _ \<Rightarrow> commit_racing others rows
      | Inr rows' \<Rightarrow> commit_racing others rows')"

subsection \<open>The disk and the object store\<close>

text \<open>
  \<^verbatim>\<open>file.save(path)\<close> (line 157) writes the uploaded stream to the path, or raises and
  writes nothing.
\<close>

record file_storage =
  fs_filename :: string
  fs_stream :: string

definition file_save :: "env \<Rightarrow> file_storage \<Rightarrow> string \<Rightarrow> world \<Rightarrow> exn + world" where
  "file_save e file path w =
     (if save_fails e then Inl IOError
      else Inr (w\<lparr>disk := (disk w)(path \<mapsto> fs_stream file)\<rparr>))"

text \<open>\<^verbatim>\<open>os.remove(path)\<close> (line 163).\<close>

definition os_remove :: "env \<Rightarrow> string \<Rightarrow> world \<Rightarrow> exn + world" where
  "os_remove e path w =
     (case disk w path of
        None \<Rightarrow> Inl FileNotFoundError
      | Some _ \<Rightarrow>
          if remove_fails e then Inl IOError
          else Inr (w\<lparr>disk := (disk w)(path := None)\<rparr>))"

text \<open>
  \<^verbatim>\<open>make_s3_upload\<close> (lines 67 to 70): the file at the path is opened and its bytes are put
  under the key \<^verbatim>\<open>os.path.join(destination_directory, key_name)\<close> of the bucket.
\<close>

definition make_s3_upload ::
  "env \<Rightarrow> string \<Rightarrow> string \<Rightarrow> string \<Rightarrow> string \<Rightarrow> world \<Rightarrow> exn + world" where
  "make_s3_upload e bucket_name destination_directory key_name path_to_file w =
     (case disk w path_to_file of
        None \<Rightarrow> Inl FileNotFoundError
      | Some bytes \<Rightarrow>
          let s3_path = os_path_join destination_directory key_name in
          if s3_upload_fails e then Inl S3Error
          else Inr (w\<lparr>s3 := (s3 w)((bucket_name, s3_path) \<mapsto> bytes)\<rparr>))"

text \<open>
  \<^verbatim>\<open>s3_connection.delete(key, bucket=...)\<close> (line 186): the object is gone afterwards,
  whether it was there or not.
\<close>

definition s3_delete :: "env \<Rightarrow> string \<Rightarrow> string \<Rightarrow> world \<Rightarrow> exn + world" where
  "s3_delete e key bucket_name w =
     (if s3_delete_fails e then Inl S3Error
      else Inr (w\<lparr>s3 := (s3 w)((bucket_name, key) := None)\<rparr>))"

text \<open>
  \<^verbatim>\<open>add_to_database\<close> (lines 72 and 73), called at line 161 with its defaults: the bucket
  is \<^verbatim>\<open>config.aws_s3_bucket_id\<close>, the passphrase is \<^verbatim>\<open>None\<close>, the accessability is 1.
\<close>

definition add_to_database ::
  "config \<Rightarrow> env \<Rightarrow> string \<Rightarrow> string \<Rightarrow> string \<Rightarrow> int \<Rightarrow> world \<Rightarrow> exn + world" where
  "add_to_database c e guid fname file_url ts w =
     (if create_fails e then Inl OperationalError
      else
        case create \<lparr>image_guid = guid, bucket = aws_s3_bucket_id c, filename = fname,
                      url = file_url, accessability = 1, passphrase = None,
                      timestamp = ts\<rparr> (db w) of
          Inl x \<Rightarrow> Inl x
        | Inr rows \<Rightarrow> Inr (w\<lparr>db := rows\<rparr>))"

section \<open>The application's methods\<close>

text \<open>\<^verbatim>\<open>strip_extenstion\<close> (lines 27 to 36).\<close>

definition strip_extenstion :: "string \<Rightarrow> string option" where
  "strip_extenstion name =
     (if CHR ''.'' \<in> set name then Some (after_last_dot (lower name)) else None)"

text \<open>
  \<^verbatim>\<open>is_acceptable_filename\<close> (line 46). \<^verbatim>\<open>None in xs\<close> is false for a list of strings.
\<close>

definition is_acceptable_filename :: "config \<Rightarrow> string \<Rightarrow> bool" where
  "is_acceptable_filename c name =
     (case strip_extenstion name of
        None \<Rightarrow> False
      | Some ext \<Rightarrow> ext \<in> set (file_extentions c))"

text \<open>\<^verbatim>\<open>check_auth\<close> (line 57).\<close>

definition check_auth :: "config \<Rightarrow> string \<Rightarrow> string \<Rightarrow> bool" where
  "check_auth c username password =
     (username = app_username c \<and> password = app_password c)"

text \<open>What a view returns: a text, a rendered template with its model, or a redirect.\<close>

record image =
  file_url :: string
  display_url :: string
  image_timestamp :: int
  shortcode :: string

datatype response =
    Body string
  | Upload_form
  | Display_image string string
  | List_images string "image list"
  | Redirect string nat
  | Login_required

text \<open>
  \<^verbatim>\<open>get_images\<close> (lines 75 to 89): one \<^verbatim>\<open>models.Image\<close> for each row (its field
  \<^verbatim>\<open>timestamp\<close> is \<open>image_timestamp\<close> here), then \<^verbatim>\<open>sorted\<close> with the key
  \<^verbatim>\<open>-image.timestamp\<close>. \<^verbatim>\<open>sorted\<close> is stable, as \<open>sort_key\<close> is. In the display URL
  the backslash of the format string stays as it is.
\<close>

definition to_image :: "config \<Rightarrow> image_row \<Rightarrow> image" where
  "to_image c row =
     \<lparr>file_url = ''http://'' @ aws_s3_endpoint c @ ''/'' @ bucket row @ ''/'' @ filename row,
      display_url = app_path c @ [CHR 0x5C] @ url row,
      image_timestamp = timestamp row,
      shortcode = url row\<rparr>"

definition get_images :: "config \<Rightarrow> world \<Rightarrow> image list" where
  "get_images c w = sort_key (\<lambda>im. - image_timestamp im) (map (to_image c) (db w))"

text \<open>\<^verbatim>\<open>list_files\<close> (lines 198 to 201).\<close>

definition list_files :: "config \<Rightarrow> world \<Rightarrow> response" where
  "list_files c w = List_images (app_path c) (get_images c w)"

text \<open>
  \<^verbatim>\<open>get_image\<close> (lines 110 to 125). \<^verbatim>\<open>image_object[0]\<close> is read only where the query
  has a row.
\<close>

definition get_image :: "config \<Rightarrow> string option \<Rightarrow> world \<Rightarrow> response" where
  "get_image c name w =
     (case name of
        None \<Rightarrow> Body ''Invalid URL specified.''
      | Some n \<Rightarrow>
          let n' = (if CHR ''.'' \<in> set n then before_first_dot n else n);
              image_object = select_where_url (db w) n'
          in if \<not> exists image_object then Body ''404''
             else Display_image (app_path c)
                    (''http://'' @ aws_s3_endpoint c @ ''/'' @ bucket (hd image_object) @ ''/''
                       @ filename (hd image_object)))"

subsection \<open>Upload\<close>

datatype http_method = GET | POST

text \<open>
  The request of the upload view: its method and the entry \<^verbatim>\<open>request.files['file']\<close>,
  absent when the form has no such field.
\<close>

record upload_request =
  req_method :: http_method
  req_file :: "file_storage option"

text \<open>
  The loop of lines 151 to 153 over the values that \<^verbatim>\<open>generate_random_string()\<close>
  returns. It has no bound in the source; here it stops without a result when the
  values given are used up.
\<close>

fun new_shortcode :: "image_row list \<Rightarrow> string list \<Rightarrow> string option" where
  "new_shortcode rows [] = None"
| "new_shortcode rows (new_url # later) =
     (if exists (select_where_url rows new_url) then new_shortcode rows later
      else Some new_url)"

definition invalid_file_message :: "config \<Rightarrow> string" where
  "invalid_file_message c =
     ''Error: An invalid file was provided. Files must be one of the following: ''
       @ join '', '' (map (\<lambda>x. ''.'' @ x) (file_extentions c))"

definition generic_error :: string where
  "generic_error = ''An error occured while accessing the database. Please try again later.''"

text \<open>\<^verbatim>\<open>'{0}.{1}'.format(file_id, x)\<close> prints \<^verbatim>\<open>None\<close> as the word None.\<close>

definition format_ext :: "string option \<Rightarrow> string" where
  "format_ext x = (case x of None \<Rightarrow> ''None'' | Some ext \<Rightarrow> ext)"

text \<open>The name of line 147, and the two paths built from it (lines 156, 69 and 161).\<close>

definition new_filename :: "string \<Rightarrow> string \<Rightarrow> string" where
  "new_filename file_id name = file_id @ ''.'' @ format_ext (strip_extenstion name)"

definition local_temp_path :: "config \<Rightarrow> env \<Rightarrow> file_storage \<Rightarrow> string" where
  "local_temp_path c e file =
     os_path_join (upload_directory c) (new_filename (uuid4 e) (fs_filename file))"

definition remote_key :: "config \<Rightarrow> env \<Rightarrow> file_storage \<Rightarrow> string" where
  "remote_key c e file =
     os_path_join (aws_s3_bucket_path c) (new_filename (uuid4 e) (fs_filename file))"

text \<open>
  Lines 155 to 168, after the loop: the rest of the \<^verbatim>\<open>try\<close> block and its bare
  \<^verbatim>\<open>except\<close>. A call that raises leaves what the calls before it have done. The rows
  of the other requests arrive before the commit of line 161.
\<close>

definition stage_upload_commit ::
  "config \<Rightarrow> env \<Rightarrow> file_storage \<Rightarrow> string \<Rightarrow> world \<Rightarrow> response \<times> world" where
  "stage_upload_commit c e file new_url w =
     (case file_save e file (local_temp_path c e file) w of
        Inl _ \<Rightarrow> (Body generic_error, w)
      | Inr w1 \<Rightarrow>
          (case make_s3_upload e (aws_s3_bucket_id c) (aws_s3_bucket_path c)
                  (new_filename (uuid4 e) (fs_filename file)) (local_temp_path c e file) w1 of
             Inl _ \<Rightarrow> (Body generic_error, w1)
           | Inr w2 \<Rightarrow>
               let w2' = w2\<lparr>db := commit_racing (racing e) (db w2)\<rparr> in
               (case add_to_database c e (uuid4 e) (remote_key c e file) new_url (now e) w2' of
                  Inl _ \<Rightarrow> (Body generic_error, w2')
                | Inr w3 \<Rightarrow>
                    (case os_remove e (local_temp_path c e file) w3 of
                       Inl _ \<Rightarrow> (Body generic_error, w3)
                     | Inr w4 \<Rightarrow> (Body (app_path c @ ''/'' @ new_url @ ''.png''), w4)))))"

text \<open>
  \<^verbatim>\<open>upload_img\<close> (lines 130 to 168). The result is \<open>None\<close> where the loop does not
  end; otherwise it is the world left behind and either the response or the exception
  that leaves the view (\<^verbatim>\<open>request.files['file']\<close> raises when the field is absent). A
  \<^verbatim>\<open>FileStorage\<close> is false exactly when its filename is empty.
\<close>

definition upload_img ::
  "config \<Rightarrow> env \<Rightarrow> upload_request \<Rightarrow> world \<Rightarrow> ((exn + response) \<times> world) option" where
  "upload_img c e r w =
     (if req_method r \<noteq> POST then Some (Inr Upload_form, w)
      else
        case req_file r of
          None \<Rightarrow> Some (Inl BadRequestKeyError, w)
        | Some file \<Rightarrow>
            if fs_filename file = [] then Some (Inr (Body ''Error: no file was provided''), w)
            else if \<not> is_acceptable_filename c (fs_filename file)
            then Some (Inr (Body (invalid_file_message c)), w)
            else
              case new_shortcode (db w) (random_strings e) of
                None \<Rightarrow> None
              | Some new_url \<Rightarrow>
                  (case stage_upload_commit c e file new_url w of
                     (resp, w') \<Rightarrow> Some (Inr resp, w')))"

subsection \<open>Deletion\<close>

text \<open>
  The query parameters of the deletion view; the filename is the text that is
  sanitised, any code points.
\<close>

record delete_request =
  arg_filename :: "codepoint list option"
  arg_redirect :: "string option"

text \<open>
  Lines 189 to 194: the response once the image is deleted, for the value of
  \<^verbatim>\<open>request.args.get('redirect')\<close>.
\<close>

definition deleted_response :: "string option \<Rightarrow> response" where
  "deleted_response redirect_url =
     (case redirect_url of
        None \<Rightarrow> Body ''The file has been deleted''
      | Some u \<Rightarrow>
          if u = [] then Body ''The file has been deleted''
          else Redirect (''/'' @ u @ ''/'') 302)"

text \<open>
  \<^verbatim>\<open>delete_img\<close> (lines 174 to 194), the function under the decorator. An exception of
  the object store or of the registry leaves the view, with what was done before it.
\<close>

definition delete_img ::
  "(codepoint \<Rightarrow> codepoint list) \<Rightarrow> config \<Rightarrow> env \<Rightarrow> delete_request \<Rightarrow> world
     \<Rightarrow> (exn + response) \<times> world" where
  "delete_img nfkd c e r w =
     (case arg_filename r of
        None \<Rightarrow> (Inr (Body ''Invalid URL Parameters''), w)
      | Some name \<Rightarrow>
          if name = [] then (Inr (Body ''Invalid URL Parameters''), w)
          else
            let sanitized_filename = secure_filename nfkd name;
                query = select_where_url (db w) sanitized_filename
            in if \<not> exists query then (Inr (Body ''The image does not exist''), w)
               else
                 let image = hd query in
                 case s3_delete e (filename image) (aws_s3_bucket_id c) w of
                   Inl x \<Rightarrow> (Inl x, w)
                 | Inr w1 \<Rightarrow>
                     if delete_instance_fails e then (Inl OperationalError, w1)
                     else
                       (Inr (deleted_response (arg_redirect r)),
                        w1\<lparr>db := delete_instance image (db w1)\<rparr>))"

text \<open>
  \<^verbatim>\<open>requires_auth\<close> (lines 93 to 100) around the view: the credentials of the request,
  when it has any, are checked before the view runs.
\<close>

definition requires_auth ::
  "config \<Rightarrow> (string \<times> string) option \<Rightarrow> (exn + response) \<times> world \<Rightarrow> world
     \<Rightarrow> (exn + response) \<times> world" where
  "requires_auth c auth view w =
     (case auth of
        None \<Rightarrow> (Inr Login_required, w)
      | Some (username, password) \<Rightarrow>
          if \<not> check_auth c username password then (Inr Login_required, w) else view)"

definition delete_route ::
  "(codepoint \<Rightarrow> codepoint list) \<Rightarrow> config \<Rightarrow> env \<Rightarrow> (string \<times> string) option
     \<Rightarrow> delete_request \<Rightarrow> world \<Rightarrow> (exn + response) \<times> world" where
  "delete_route nfkd c e auth r w = requires_auth c auth (delete_img nfkd c e r w) w"

section \<open>Example data\<close>

text \<open>
  A configuration, a request environment in which nothing fails, and an empty world, for
  the concrete instances below.
\<close>

definition example_config :: config where
  "example_config =
     \<lparr>file_extentions = [''png'', ''jpg'', ''gif''], upload_directory = ''uploads'',
      default_url_length = 6, url_characters = ''abcdefghijklmnopqrstuvwxyz0123456789'',
      app_path = ''http://img.example'', app_username = ''admin'', app_password = ''secret'',
      aws_s3_endpoint = ''s3.example.com'', aws_s3_bucket_id = ''images'',
      aws_s3_bucket_path = ''img''\<rparr>"

definition calm :: env where
  "calm =
     \<lparr>random_strings = [''abc123''], uuid4 = ''0f8fad5b'', now = 1500000000,
      save_fails = False, s3_upload_fails = False, create_fails = False,
      remove_fails = False, s3_delete_fails = False, delete_instance_fails = False,
      racing = []\<rparr>"

definition empty_world :: world where
  "empty_world = \<lparr>db = [], s3 = Map.empty, disk = Map.empty\<rparr>"

definition post :: "string \<Rightarrow> string \<Rightarrow> upload_request" where
  "post name bytes =
     \<lparr>req_method = POST, req_file = Some \<lparr>fs_filename = name, fs_stream = bytes\<rparr>\<rparr>"

text \<open>
  A row that another request commits under the shortcode \<^verbatim>\<open>abc123\<close>, the environment
  in which it arrives between the check and the commit, the row and the world of the
  upload of \<^verbatim>\<open>cat.jpg\<close>, and an environment whose object store refuses the upload.
\<close>

definition other_row :: image_row where
  "other_row =
     \<lparr>image_guid = ''7c9e6679'', bucket = ''images'', filename = ''img/7c9e6679.png'',
      url = ''abc123'', accessability = 1, passphrase = None, timestamp = 1500000000\<rparr>"

definition raced :: env where
  "raced = calm\<lparr>random_strings := [''abc123'', ''zzz999''], racing := [other_row]\<rparr>"

definition cat_row :: image_row where
  "cat_row =
     \<lparr>image_guid = ''0f8fad5b'', bucket = ''images'', filename = ''img/0f8fad5b.jpg'',
      url = ''abc123'', accessability = 1, passphrase = None, timestamp = 1500000000\<rparr>"

definition after_upload :: world where
  "after_upload =
     \<lparr>db = [cat_row], s3 = [(''images'', ''img/0f8fad5b.jpg'') \<mapsto> ''JFIF''],
      disk = Map.empty\<rparr>"

definition s3_down :: env where
  "s3_down = calm\<lparr>s3_upload_fails := True\<rparr>"

text \<open>
  A second upload, of \<^verbatim>\<open>dog.png\<close>, in the second of the first one: its environment,
  its row, and the world after it.
\<close>

definition same_second :: env where
  "same_second = calm\<lparr>random_strings := [''zzz999''], uuid4 := ''7c9e6679''\<rparr>"

definition dog_row :: image_row where
  "dog_row =
     \<lparr>image_guid = ''7c9e6679'', bucket = ''images'', filename = ''img/7c9e6679.png'',
      url = ''zzz999'', accessability = 1, passphrase = None, timestamp = 1500000000\<rparr>"

definition after_second_upload :: world where
  "after_second_upload =
     \<lparr>db = [cat_row, dog_row],
      s3 = [(''images'', ''img/0f8fad5b.jpg'') \<mapsto> ''JFIF'',
            (''images'', ''img/7c9e6679.png'') \<mapsto> ''PNG''],
      disk = Map.empty\<rparr>"

text \<open>
  A table whose only row has a shortcode with a space in it, and the deletion request
  for a name, without a redirect.
\<close>

definition odd_row :: image_row where
  "odd_row =
     \<lparr>image_guid = ''3f2504e0'', bucket = ''images'', filename = ''img/3f2504e0.gif'',
      url = ''my pic'', accessability = 1, passphrase = None, timestamp = 1500000000\<rparr>"

definition odd_world :: world where
  "odd_world =
     \<lparr>db = [odd_row], s3 = [(''images'', ''img/3f2504e0.gif'') \<mapsto> ''GIF89a''],
      disk = Map.empty\<rparr>"

definition delete_of :: "codepoint list \<Rightarrow> delete_request" where
  "delete_of name = \<lparr>arg_filename = Some name, arg_redirect = None\<rparr>"

text \<open>
  Two entries of the decomposition table, for the examples: U+00E9, the letter e with an
  acute accent, is the letter e and the combining accent U+0301; U+00A0, the no-break
  space, is the space. The name \<^verbatim>\<open>caf\<close> followed by U+00E9, and a table whose only row has
  the shortcode \<^verbatim>\<open>cafe\<close>.
\<close>

definition example_nfkd :: "codepoint \<Rightarrow> codepoint list" where
  "example_nfkd n = (if n = 233 then [101, 769] else if n = 160 then [32] else [n])"

definition cafe_accent :: "codepoint list" where
  "cafe_accent = codepoints ''caf'' @ [233]"

definition cafe_row :: image_row where
  "cafe_row =
     \<lparr>image_guid = ''9a3b1c7e'', bucket = ''images'', filename = ''img/9a3b1c7e.png'',
      url = ''cafe'', accessability = 1, passphrase = None, timestamp = 1500000000\<rparr>"

definition cafe_world :: world where
  "cafe_world =
     \<lparr>db = [cafe_row], s3 = [(''images'', ''img/9a3b1c7e.png'') \<mapsto> ''PNG''],
      disk = Map.empty\<rparr>"

text \<open>
  A configuration whose alphabet has the dot, the environment of an upload that draws the
  shortcode \<^verbatim>\<open>ab.cab\<close>, its row and the world after it; and a table that also has a row
  of the shortcode \<^verbatim>\<open>ab\<close>, drawn when the length of the shortcodes was 2.
\<close>

definition dotted_config :: config where
  "dotted_config = example_config\<lparr>url_characters := ''abc.''\<rparr>"

definition dotted :: env where
  "dotted = calm\<lparr>random_strings := [''ab.cab'']\<rparr>"

definition dotted_row :: image_row where
  "dotted_row =
     \<lparr>image_guid = ''0f8fad5b'', bucket = ''images'', filename = ''img/0f8fad5b.jpg'',
      url = ''ab.cab'', accessability = 1, passphrase = None, timestamp = 1500000000\<rparr>"

definition dotted_world :: world where
  "dotted_world =
     \<lparr>db = [dotted_row], s3 = [(''images'', ''img/0f8fad5b.jpg'') \<mapsto> ''JFIF''],
      disk = Map.empty\<rparr>"

definition short_row :: image_row where
  "short_row =
     \<lparr>image_guid = ''6fa459ea'', bucket = ''images'', filename = ''img/6fa459ea.gif'',
      url = ''ab'', accessability = 1, passphrase = None, timestamp = 1400000000\<rparr>"

definition two_lengths_world :: world where
  "two_lengths_world =
     \<lparr>db = [short_row, dotted_row],
      s3 = [(''images'', ''img/6fa459ea.gif'') \<mapsto> ''GIF89a'',
            (''images'', ''img/0f8fad5b.jpg'') \<mapsto> ''JFIF''],
      disk = Map.empty\<rparr>"

text \<open>
  A row kept in another bucket than the configured one, under a key that the configured
  bucket holds as well.
\<close>

definition archive_row :: image_row where
  "archive_row =
     \<lparr>image_guid = ''c56a4180'', bucket = ''archive'', filename = ''img/c56a4180.png'',
      url = ''old001'', accessability = 1, passphrase = None, timestamp = 1400000000\<rparr>"

definition archive_world :: world where
  "archive_world =
     \<lparr>db = [archive_row],
      s3 = [(''archive'', ''img/c56a4180.png'') \<mapsto> ''PNG-old'',
            (''images'', ''img/c56a4180.png'') \<mapsto> ''PNG-new''],
      disk = Map.empty\<rparr>"

section \<open>Properties of the helpers\<close>

subsection \<open>Extensions\<close>

lemma lower_char_dot: "lower_char ch = CHR ''.'' \<longleftrightarrow> ch = CHR ''.''"
  by (auto simp: lower_char_def split: option.splits if_splits)

lemma dot_in_lower: "CHR ''.'' \<in> set (lower s) \<longleftrightarrow> CHR ''.'' \<in> set s"
proof (induction s)
  case Nil
  show ?case by (simp add: lower_def)
next
  case (Cons ch s)
  have "(CHR ''.'' = lower_char ch) = (CHR ''.'' = ch)"
    using lower_char_dot[of ch] by (simp add: eq_commute)
  with Cons show ?case by (simp add: lower_def)
qed

lemma after_last_dot_append:
  assumes "CHR ''.'' \<notin> set suf"
  shows "after_last_dot (pre @ ''.'' @ suf) = suf"
proof -
  have "takeWhile (\<lambda>ch. ch \<noteq> CHR ''.'') (rev suf @ CHR ''.'' # rev pre)
          = rev suf @ takeWhile (\<lambda>ch. ch \<noteq> CHR ''.'') (CHR ''.'' # rev pre)"
    by (rule takeWhile_append2) (use assms in auto)
  then show ?thesis by (simp add: after_last_dot_def)
qed

lemma lower_append: "lower (xs @ ys) = lower xs @ lower ys"
  by (simp add: lower_def)

lemma lower_dot: "lower ''.'' = ''.''"
  by (simp add: lower_def lower_char_def)

lemma strip_extenstion_suffix:
  assumes "CHR ''.'' \<notin> set suf"
  shows "strip_extenstion (pre @ ''.'' @ suf) = Some (lower suf)"
proof -
  have l: "lower (pre @ ''.'' @ suf) = lower pre @ ''.'' @ lower suf"
    by (simp only: lower_append lower_dot)
  from assms have "CHR ''.'' \<notin> set (lower suf)" by (simp add: dot_in_lower)
  then have "after_last_dot (lower pre @ ''.'' @ lower suf) = lower suf"
    by (rule after_last_dot_append)
  with l show ?thesis by (simp add: strip_extenstion_def)
qed

lemma strip_extenstion_no_dot: "CHR ''.'' \<notin> set name \<Longrightarrow> strip_extenstion name = None"
  by (simp add: strip_extenstion_def)

lemma exists_select: "exists (select_where_url rows u) \<longleftrightarrow> u \<in> url ` set rows"
  by (auto simp: exists_def select_where_url_def filter_empty_conv)

lemma new_shortcode_Some:
  "new_shortcode rows cands = Some u \<Longrightarrow> u \<in> set cands \<and> u \<notin> url ` set rows"
  by (induction cands) (auto simp: exists_select split: if_splits)

lemma new_shortcode_returns:
  "\<exists>u \<in> set cands. u \<notin> url ` set rows \<Longrightarrow> \<exists>u. new_shortcode rows cands = Some u"
  by (induction cands) (auto simp: exists_select)

lemma commit_racing_extends:
  "\<exists>extra. commit_racing others rows = rows @ extra \<and> set extra \<subseteq> set others"
proof (induction others arbitrary: rows)
  case Nil
  show ?case by simp
next
  case (Cons other others)
  show ?case
  proof (cases "create other rows")
    case (Inl x)
    with Cons.IH[of rows] show ?thesis by auto
  next
    case (Inr rows')
    then have r: "rows' = rows @ [other]" by (auto simp: create_def split: if_splits)
    from Cons.IH[of rows'] obtain extra where
      "commit_racing others rows' = rows' @ extra" "set extra \<subseteq> set others" by blast
    with Inr r show ?thesis by auto
  qed
qed

lemma set_commit_racing: "set (commit_racing others rows) \<subseteq> set rows \<union> set others"
  using commit_racing_extends[of others rows] by auto

lemma distinct_commit_racing:
  "distinct (map url rows) \<Longrightarrow> distinct (map url (commit_racing others rows))"
proof (induction others arbitrary: rows)
  case Nil
  then show ?case by simp
next
  case (Cons other others)
  show ?case
  proof (cases "create other rows")
    case (Inl x)
    with Cons show ?thesis by simp
  next
    case (Inr rows')
    then have "distinct (map url rows')" using Cons.prems
      by (auto simp: create_def exists_select split: if_splits)
    with Inr Cons.IH[of rows'] show ?thesis by simp
  qed
qed

subsection \<open>The paths through the upload\<close>

lemmas stage_defs = stage_upload_commit_def file_save_def make_s3_upload_def
  add_to_database_def os_remove_def create_def exists_select remote_key_def

lemma stage_save_fails:
  "save_fails e \<Longrightarrow> stage_upload_commit c e file u w = (Body generic_error, w)"
  by (simp add: stage_defs)

lemma stage_s3_fails:
  assumes "\<not> save_fails e" "s3_upload_fails e"
  shows "stage_upload_commit c e file u w =
           (Body generic_error, w\<lparr>disk := (disk w)(local_temp_path c e file \<mapsto> fs_stream file)\<rparr>)"
  using assms by (simp add: stage_defs)

lemma stage_commit_fails:
  assumes "\<not> save_fails e" "\<not> s3_upload_fails e"
    and "create_fails e \<or> u \<in> url ` set (commit_racing (racing e) (db w))"
  shows "stage_upload_commit c e file u w =
           (Body generic_error,
            w\<lparr>disk := (disk w)(local_temp_path c e file \<mapsto> fs_stream file),
              s3 := (s3 w)((aws_s3_bucket_id c, remote_key c e file) \<mapsto> fs_stream file),
              db := commit_racing (racing e) (db w)\<rparr>)"
  using assms by (cases "create_fails e") (simp_all add: stage_defs Let_def)

lemma stage_remove_fails:
  assumes "\<not> save_fails e" "\<not> s3_upload_fails e" "\<not> create_fails e"
    and "u \<notin> url ` set (commit_racing (racing e) (db w))" and "remove_fails e"
  shows "stage_upload_commit c e file u w =
           (Body generic_error,
            w\<lparr>disk := (disk w)(local_temp_path c e file \<mapsto> fs_stream file),
              s3 := (s3 w)((aws_s3_bucket_id c, remote_key c e file) \<mapsto> fs_stream file),
              db := commit_racing (racing e) (db w) @
                     [\<lparr>image_guid = uuid4 e, bucket = aws_s3_bucket_id c,
                       filename = remote_key c e file, url = u, accessability = 1,
                       passphrase = None, timestamp = now e\<rparr>]\<rparr>)"
  using assms by (simp add: stage_defs Let_def)

lemma stage_succeeds:
  assumes "\<not> save_fails e" "\<not> s3_upload_fails e" "\<not> create_fails e"
    and "u \<notin> url ` set (commit_racing (racing e) (db w))" and "\<not> remove_fails e"
  shows "stage_upload_commit c e file u w =
           (Body (app_path c @ ''/'' @ u @ ''.png''),
            w\<lparr>disk := (disk w)(local_temp_path c e file := None),
              s3 := (s3 w)((aws_s3_bucket_id c, remote_key c e file) \<mapsto> fs_stream file),
              db := commit_racing (racing e) (db w) @
                     [\<lparr>image_guid = uuid4 e, bucket = aws_s3_bucket_id c,
                       filename = remote_key c e file, url = u, accessability = 1,
                       passphrase = None, timestamp = now e\<rparr>]\<rparr>)"
  using assms by (simp add: stage_defs Let_def)

lemmas example_defs = example_config_def calm_def empty_world_def post_def

lemmas name_defs = strip_extenstion_def lower_def lower_char_def after_last_dot_def
  is_acceptable_filename_def new_filename_def format_ext_def local_temp_path_def
  remote_key_def os_path_join_def

lemma acceptable_nonempty: "is_acceptable_filename c name \<Longrightarrow> name \<noteq> []"
  by (auto simp: is_acceptable_filename_def strip_extenstion_def)

lemma upload_img_validated:
  assumes "req_method r = POST" and "req_file r = Some file"
    and "is_acceptable_filename c (fs_filename file)"
    and "new_shortcode (db w) (random_strings e) = Some code"
  shows "upload_img c e r w =
           Some (Inr (fst (stage_upload_commit c e file code w)),
                 snd (stage_upload_commit c e file code w))"
  using assms acceptable_nonempty[OF assms(3)]
  by (simp add: upload_img_def split: prod.splits)

lemma stage_db_cases:
  "stage_upload_commit c e file u w = (resp, w') \<Longrightarrow>
     db w' = db w \<or> db w' = commit_racing (racing e) (db w) \<or>
     (\<not> s3_upload_fails e \<and>
      db w' = commit_racing (racing e) (db w) @
                [\<lparr>image_guid = uuid4 e, bucket = aws_s3_bucket_id c,
                  filename = remote_key c e file, url = u, accessability = 1,
                  passphrase = None, timestamp = now e\<rparr>] \<and>
      s3 w' (aws_s3_bucket_id c, remote_key c e file) = Some (fs_stream file))"
  by (auto simp: stage_defs Let_def split: if_splits option.splits sum.splits)

lemma stage_s3_fails_db:
  "s3_upload_fails e \<Longrightarrow> stage_upload_commit c e file u w = (resp, w') \<Longrightarrow> db w' = db w"
  by (auto simp: stage_defs Let_def split: if_splits option.splits sum.splits)

lemma upload_img_cases:
  assumes "upload_img c e r w = Some (out, w')"
  shows "w' = w \<or>
         (\<exists>file u resp. req_file r = Some file \<and> out = Inr resp \<and>
            stage_upload_commit c e file u w = (resp, w'))"
  using assms
  by (auto simp: upload_img_def split: if_splits option.splits prod.splits)

text \<open>
  The loop ends when one of the values drawn is free, and the upload then returns.
  The shortcodes of the table stay distinct through an upload.
\<close>

lemma new_shortcode_first_free:
  assumes "set taken \<subseteq> url ` set rows" and "code \<notin> url ` set rows"
  shows "new_shortcode rows (taken @ code # later) = Some code"
  using assms by (induction taken) (auto simp: exists_select)

lemma upload_img_returns:
  assumes "\<exists>u \<in> set (random_strings e). u \<notin> url ` set (db w)"
  shows "\<exists>out w'. upload_img c e r w = Some (out, w')"
proof -
  from new_shortcode_returns[OF assms] obtain u where
    "new_shortcode (db w) (random_strings e) = Some u" ..
  then show ?thesis
    by (auto simp: upload_img_def split: option.splits prod.splits)
qed

lemma upload_keeps_shortcodes_distinct:
  assumes "upload_img c e r w = Some (out, w')" and "distinct (map url (db w))"
  shows "distinct (map url (db w'))"
proof -
  from upload_img_cases[OF assms(1)] show ?thesis
  proof
    assume "w' = w"
    with assms(2) show ?thesis by simp
  next
    assume "\<exists>file u resp. req_file r = Some file \<and> out = Inr resp \<and>
              stage_upload_commit c e file u w = (resp, w')"
    then obtain fl u resp where s: "stage_upload_commit c e fl u w = (resp, w')" by blast
    have d: "distinct (map url (commit_racing (racing e) (db w)))"
      using assms(2) by (rule distinct_commit_racing)
    from s d assms(2) show ?thesis
      by (auto simp: stage_defs Let_def split: if_splits option.splits sum.splits)
  qed
qed

lemma example_upload:
  "upload_img example_config calm (post ''cat.jpg'' ''JFIF'') empty_world =
     Some (Inr (Body ''http://img.example/abc123.png''), after_upload)"
  by (simp add: upload_img_def stage_defs example_defs name_defs select_where_url_def
        exists_def after_upload_def cat_row_def)

section \<open>Upload\<close>

text \<open>
  C3. An upload whose original filename has no dot, or whose extension (what follows
  the last dot, in lower case) is not in the allow-list, is answered with the
  invalid-file-type message, and the world is left as it was: no file is staged, no
  object is uploaded and no row is created. The request is a POST that carries a file,
  which is one with a filename (line 138).
\<close>

theorem upload_rejects_unlisted_extension:
  assumes "req_method r = POST" and "req_file r = Some file" and "fs_filename file \<noteq> []"
    and "CHR ''.'' \<notin> set (fs_filename file) \<or>
         (\<exists>pre suf. fs_filename file = pre @ ''.'' @ suf \<and> CHR ''.'' \<notin> set suf \<and>
            lower suf \<notin> set (file_extentions c))"
  shows "upload_img c e r w = Some (Inr (Body (invalid_file_message c)), w)"
proof -
  have "\<not> is_acceptable_filename c (fs_filename file)"
    using assms(4)
  proof
    assume "CHR ''.'' \<notin> set (fs_filename file)"
    then show ?thesis
      by (simp add: is_acceptable_filename_def strip_extenstion_no_dot)
  next
    assume "\<exists>pre suf. fs_filename file = pre @ ''.'' @ suf \<and> CHR ''.'' \<notin> set suf \<and>
              lower suf \<notin> set (file_extentions c)"
    then obtain pre suf where n: "fs_filename file = pre @ ''.'' @ suf"
      and d: "CHR ''.'' \<notin> set suf" and l: "lower suf \<notin> set (file_extentions c)"
      by blast
    from d have "strip_extenstion (pre @ ''.'' @ suf) = Some (lower suf)"
      by (rule strip_extenstion_suffix)
    with n l show ?thesis
      by (simp add: is_acceptable_filename_def)
  qed
  with assms(1-3) show ?thesis
    by (simp add: upload_img_def)
qed

theorem upload_rejects_unlisted_extension_witness:
  "lower ''EXE'' \<notin> set (file_extentions example_config) \<and>
   upload_img example_config calm (post ''malware.EXE'' ''MZ'') empty_world =
     Some (Inr (Body (''Error: An invalid file was provided. '' @
                      ''Files must be one of the following: .png, .jpg, .gif'')),
           empty_world)"
proof -
  have "\<exists>pre suf. ''malware.EXE'' = pre @ ''.'' @ suf \<and> CHR ''.'' \<notin> set suf \<and>
          lower suf \<notin> set (file_extentions example_config)"
    by (rule exI[of _ "''malware''"], rule exI[of _ "''EXE''"])
       (simp add: example_config_def lower_def lower_char_def)
  then show ?thesis
    using upload_rejects_unlisted_extension
      [of "post ''malware.EXE'' ''MZ''" "\<lparr>fs_filename = ''malware.EXE'', fs_stream = ''MZ''\<rparr>"
          example_config calm empty_world]
    by (simp add: post_def invalid_file_message_def example_config_def lower_def lower_char_def)
qed

text \<open>
  C1. Whatever an upload does, every row of the registry afterwards was there before,
  or was committed by another request, or has its object in the object store under the
  row's bucket and filename, holding the bytes that were uploaded. When the remote
  upload raises, the registry is what it was: no row is written for the upload.
\<close>

theorem record_only_after_remote_object:
  assumes "upload_img c e r w = Some (out, w')"
  shows "(\<forall>row \<in> set (db w').
            row \<in> set (db w) \<or> row \<in> set (racing e) \<or>
            (\<exists>file. req_file r = Some file \<and>
               s3 w' (bucket row, filename row) = Some (fs_stream file))) \<and>
         (s3_upload_fails e \<longrightarrow> db w' = db w)"
proof -
  from upload_img_cases[OF assms] show ?thesis
  proof
    assume "w' = w"
    then show ?thesis by simp
  next
    assume "\<exists>file u resp. req_file r = Some file \<and> out = Inr resp \<and>
              stage_upload_commit c e file u w = (resp, w')"
    then obtain fl u resp where f: "req_file r = Some fl"
      and s: "stage_upload_commit c e fl u w = (resp, w')" by blast
    have sub: "set (commit_racing (racing e) (db w)) \<subseteq> set (db w) \<union> set (racing e)"
      by (rule set_commit_racing)
    from stage_db_cases[OF s] sub f have "\<forall>row \<in> set (db w').
            row \<in> set (db w) \<or> row \<in> set (racing e) \<or>
            (\<exists>file. req_file r = Some file \<and>
               s3 w' (bucket row, filename row) = Some (fs_stream file))"
      by auto
    moreover have "s3_upload_fails e \<longrightarrow> db w' = db w"
      using stage_s3_fails_db[OF _ s] by blast
    ultimately show ?thesis by blast
  qed
qed

theorem record_only_after_remote_object_witness:
  "upload_img example_config calm (post ''cat.jpg'' ''JFIF'') empty_world =
     Some (Inr (Body ''http://img.example/abc123.png''), after_upload) \<and>
   db after_upload = [cat_row] \<and>
   s3 after_upload (bucket cat_row, filename cat_row) = Some ''JFIF''"
  using record_only_after_remote_object[OF example_upload] example_upload
  by (simp add: after_upload_def cat_row_def)

text \<open>
  C5. When the upload passes validation, the loop finds the shortcode \<open>code\<close> and no
  call raises, the response is exactly the application path, a slash, the shortcode and
  \<^verbatim>\<open>.png\<close>; the row appended to the registry has that shortcode, and its filename
  keeps the real extension of the upload.
\<close>

theorem upload_returns_png_link:
  assumes "req_method r = POST" and "req_file r = Some file"
    and "is_acceptable_filename c (fs_filename file)"
    and "new_shortcode (db w) (random_strings e) = Some code"
    and "\<not> save_fails e" and "\<not> s3_upload_fails e" and "\<not> create_fails e"
    and "code \<notin> url ` set (commit_racing (racing e) (db w))"
    and "\<not> remove_fails e"
  shows "\<exists>w' row. upload_img c e r w = Some (Inr (Body (app_path c @ ''/'' @ code @ ''.png'')), w') \<and>
           db w' = commit_racing (racing e) (db w) @ [row] \<and> url row = code \<and>
           filename row = remote_key c e file"
  unfolding upload_img_validated[OF assms(1-4)] stage_succeeds[OF assms(5-9)]
  by simp

theorem upload_returns_png_link_witness:
  "is_acceptable_filename example_config ''cat.jpg'' \<and>
   new_shortcode (db empty_world) (random_strings calm) = Some ''abc123'' \<and>
   upload_img example_config calm (post ''cat.jpg'' ''JFIF'') empty_world =
     Some (Inr (Body ''http://img.example/abc123.png''), after_upload) \<and>
   map filename (db after_upload) = [''img/0f8fad5b.jpg'']"
proof -
  have a: "is_acceptable_filename example_config
             (fs_filename \<lparr>fs_filename = ''cat.jpg'', fs_stream = ''JFIF''\<rparr>)"
    by (simp add: example_defs name_defs)
  have n: "new_shortcode (db empty_world) (random_strings calm) = Some ''abc123''"
    by (simp add: example_defs select_where_url_def exists_def)
  have u: "''abc123'' \<notin> url ` set (commit_racing (racing calm) (db empty_world))"
    by (simp add: example_defs)
  from upload_returns_png_link
         [of "post ''cat.jpg'' ''JFIF''" "\<lparr>fs_filename = ''cat.jpg'', fs_stream = ''JFIF''\<rparr>"
             example_config empty_world calm "''abc123''", OF _ _ a n _ _ _ u]
  have "\<exists>w' row. upload_img example_config calm (post ''cat.jpg'' ''JFIF'') empty_world =
          Some (Inr (Body (app_path example_config @ ''/'' @ ''abc123'' @ ''.png'')), w') \<and>
          db w' = commit_racing (racing calm) (db empty_world) @ [row] \<and> url row = ''abc123'' \<and>
          filename row =
            remote_key example_config calm \<lparr>fs_filename = ''cat.jpg'', fs_stream = ''JFIF''\<rparr>"
    by (simp add: post_def calm_def)
  with a n example_upload show ?thesis
    by (simp add: after_upload_def cat_row_def)
qed

text \<open>
  C10. After validation, a failure of the staging, of the remote upload, of the commit
  (refused or raising) or of the removal gives one and the same response, the fixed
  message of line 168.
\<close>

theorem upload_failures_look_alike:
  assumes "req_method r = POST" and "req_file r = Some file"
    and "is_acceptable_filename c (fs_filename file)"
    and "new_shortcode (db w) (random_strings e) = Some code"
    and "save_fails e \<or> s3_upload_fails e \<or> create_fails e \<or>
         code \<in> url ` set (commit_racing (racing e) (db w)) \<or> remove_fails e"
  shows "\<exists>w'. upload_img c e r w =
           Some (Inr (Body ''An error occured while accessing the database. Please try again later.''),
                 w')"
proof -
  have "fst (stage_upload_commit c e file code w) = Body generic_error"
  proof (cases "save_fails e")
    case True
    then show ?thesis by (simp add: stage_save_fails)
  next
    case save: False
    show ?thesis
    proof (cases "s3_upload_fails e")
      case True
      with save show ?thesis by (simp add: stage_s3_fails)
    next
      case s3: False
      show ?thesis
      proof (cases "create_fails e \<or> code \<in> url ` set (commit_racing (racing e) (db w))")
        case True
        with save s3 show ?thesis by (simp add: stage_commit_fails)
      next
        case False
        with assms(5) save s3 have "remove_fails e" by blast
        with False save s3 show ?thesis by (simp add: stage_remove_fails)
      qed
    qed
  qed
  then show ?thesis
    unfolding upload_img_validated[OF assms(1-4)] by (simp add: generic_error_def)
qed

theorem upload_failures_look_alike_witness:
  "is_acceptable_filename example_config ''cat.jpg'' \<and>
   new_shortcode (db empty_world) (random_strings s3_down) = Some ''abc123'' \<and>
   s3_upload_fails s3_down \<and>
   map_option fst (upload_img example_config s3_down (post ''cat.jpg'' ''JFIF'') empty_world) =
     Some (Inr (Body ''An error occured while accessing the database. Please try again later.''))"
proof -
  have a: "is_acceptable_filename example_config
             (fs_filename \<lparr>fs_filename = ''cat.jpg'', fs_stream = ''JFIF''\<rparr>)"
    by (simp add: example_defs name_defs)
  have n: "new_shortcode (db empty_world) (random_strings s3_down) = Some ''abc123''"
    by (simp add: example_defs s3_down_def select_where_url_def exists_def)
  have f: "s3_upload_fails s3_down" by (simp add: s3_down_def)
  from upload_failures_look_alike
         [of "post ''cat.jpg'' ''JFIF''" "\<lparr>fs_filename = ''cat.jpg'', fs_stream = ''JFIF''\<rparr>"
             example_config empty_world s3_down "''abc123''", OF _ _ a n]
  have "\<exists>w'. upload_img example_config s3_down (post ''cat.jpg'' ''JFIF'') empty_world =
          Some (Inr (Body ''An error occured while accessing the database. Please try again later.''),
                w')"
    using f by (simp add: post_def)
  with a n f show ?thesis by auto
qed

text \<open>
  C4, as amended. When the commit of line 161 is refused because the shortcode is
  taken (another request committed it after the check of line 152), the upload is not
  retried: the fixed error message is the response, and the registry holds no row of
  this upload.
\<close>

theorem collision_at_commit_is_surfaced:
  assumes "req_method r = POST" and "req_file r = Some file"
    and "is_acceptable_filename c (fs_filename file)"
    and "new_shortcode (db w) (random_strings e) = Some code"
    and "\<not> save_fails e" and "\<not> s3_upload_fails e" and "\<not> create_fails e"
    and "create \<lparr>image_guid = uuid4 e, bucket = aws_s3_bucket_id c,
                  filename = remote_key c e file, url = code, accessability = 1,
                  passphrase = None, timestamp = now e\<rparr>
           (commit_racing (racing e) (db w)) = Inl IntegrityError"
  shows "\<exists>w'. upload_img c e r w =
           Some (Inr (Body ''An error occured while accessing the database. Please try again later.''),
                 w') \<and>
           db w' = commit_racing (racing e) (db w)"
proof -
  from assms(8) have "code \<in> url ` set (commit_racing (racing e) (db w))"
    by (simp add: create_def exists_select split: if_splits)
  then have "create_fails e \<or> code \<in> url ` set (commit_racing (racing e) (db w))" ..
  from stage_commit_fails[OF assms(5,6) this] show ?thesis
    unfolding upload_img_validated[OF assms(1-4)] by (simp add: generic_error_def)
qed

theorem collision_at_commit_is_surfaced_witness:
  "is_acceptable_filename example_config ''cat.jpg'' \<and>
   new_shortcode (db empty_world) (random_strings raced) = Some ''abc123'' \<and>
   create cat_row (commit_racing (racing raced) (db empty_world)) = Inl IntegrityError \<and>
   map_option (db \<circ> snd) (upload_img example_config raced (post ''cat.jpg'' ''JFIF'') empty_world)
     = Some [other_row]"
proof -
  have a: "is_acceptable_filename example_config
             (fs_filename \<lparr>fs_filename = ''cat.jpg'', fs_stream = ''JFIF''\<rparr>)"
    by (simp add: example_defs name_defs)
  have n: "new_shortcode (db empty_world) (random_strings raced) = Some ''abc123''"
    by (simp add: example_defs raced_def select_where_url_def exists_def)
  have k: "\<lparr>image_guid = uuid4 raced, bucket = aws_s3_bucket_id example_config,
            filename = remote_key example_config raced
                         \<lparr>fs_filename = ''cat.jpg'', fs_stream = ''JFIF''\<rparr>,
            url = ''abc123'', accessability = 1, passphrase = None, timestamp = now raced\<rparr>
           = cat_row"
    by (simp add: example_defs raced_def cat_row_def name_defs)
  have i: "create cat_row (commit_racing (racing raced) (db empty_world)) = Inl IntegrityError"
    by (simp add: example_defs raced_def cat_row_def other_row_def create_def
          select_where_url_def exists_def)
  have r: "commit_racing (racing raced) (db empty_world) = [other_row]"
    by (simp add: example_defs raced_def create_def select_where_url_def exists_def)
  from collision_at_commit_is_surfaced
         [of "post ''cat.jpg'' ''JFIF''" "\<lparr>fs_filename = ''cat.jpg'', fs_stream = ''JFIF''\<rparr>"
             example_config empty_world raced "''abc123''", OF _ _ a n _ _ _]
  have "\<exists>w'. upload_img example_config raced (post ''cat.jpg'' ''JFIF'') empty_world =
          Some (Inr (Body ''An error occured while accessing the database. Please try again later.''),
                w') \<and>
          db w' = commit_racing (racing raced) (db empty_world)"
    using i by (simp add: post_def raced_def calm_def k[unfolded raced_def calm_def, simplified])
  with a n i r show ?thesis by auto
qed

text \<open>
  The claim as stated fails: the shortcode \<^verbatim>\<open>abc123\<close> is free at the check, another
  request commits it before line 161, and the upload answers with the error message
  although a second value, \<^verbatim>\<open>zzz999\<close>, was there to be drawn.
\<close>

theorem collision_at_commit_counterexample:
  "new_shortcode (db empty_world) (random_strings raced) = Some ''abc123'' \<and>
   create cat_row (commit_racing (racing raced) (db empty_world)) = Inl IntegrityError \<and>
   upload_img example_config raced (post ''cat.jpg'' ''JFIF'') empty_world =
     Some (Inr (Body ''An error occured while accessing the database. Please try again later.''),
           \<lparr>db = [other_row],
            s3 = [(''images'', ''img/0f8fad5b.jpg'') \<mapsto> ''JFIF''],
            disk = [''uploads/0f8fad5b.jpg'' \<mapsto> ''JFIF'']\<rparr>)"
  by (simp add: upload_img_def stage_defs example_defs name_defs select_where_url_def
        exists_def raced_def cat_row_def other_row_def generic_error_def Let_def)

text \<open>
  C2, at a failing input. The object store refuses the upload of \<^verbatim>\<open>cat.jpg\<close>; the
  \<^verbatim>\<open>except\<close> branch returns the error message and the staged file is still on the
  disk, while line 163 removes it where nothing raises.
\<close>

theorem staged_file_left_after_failed_upload:
  "upload_img example_config s3_down (post ''cat.jpg'' ''JFIF'') empty_world =
     Some (Inr (Body ''An error occured while accessing the database. Please try again later.''),
           \<lparr>db = [], s3 = Map.empty, disk = [''uploads/0f8fad5b.jpg'' \<mapsto> ''JFIF'']\<rparr>)"
  by (simp add: upload_img_def stage_defs example_defs name_defs select_where_url_def
        exists_def s3_down_def generic_error_def Let_def)

section \<open>Retrieval and listing\<close>

lemma hd_select:
  "find (\<lambda>row. url row = u) rows = Some row \<Longrightarrow> hd (select_where_url rows u) = row"
  by (induction rows) (auto simp: select_where_url_def split: if_splits)

lemma exists_find:
  "exists (select_where_url rows u) \<longleftrightarrow> find (\<lambda>row. url row = u) rows \<noteq> None"
  by (induction rows) (auto simp: select_where_url_def exists_def)

lemma before_first_dot_append:
  "before_first_dot (s @ CHR ''.'' # ext) = before_first_dot s"
  by (induction s) (auto simp: before_first_dot_def)

lemma before_first_dot_none: "CHR ''.'' \<notin> set s \<Longrightarrow> before_first_dot s = s"
  by (induction s) (auto simp: before_first_dot_def)

lemma get_image_find:
  assumes "CHR ''.'' \<notin> set s"
  shows "get_image c (Some s) w =
           (case find (\<lambda>row. url row = s) (db w) of
              None \<Rightarrow> Body ''404''
            | Some row \<Rightarrow>
                Display_image (app_path c)
                  (''http://'' @ aws_s3_endpoint c @ ''/'' @ bucket row @ ''/'' @ filename row))"
  using assms
  by (auto simp: get_image_def exists_find hd_select split: option.splits)

text \<open>
  C6, as amended. Resolving a name followed by a dot and any extension is resolving
  the name itself: what is looked up is what precedes the first dot. For a shortcode
  \<open>s\<close> without a dot, the response is \<^verbatim>\<open>404\<close> when no row has \<open>s\<close> as its \<^verbatim>\<open>url\<close>, and
  otherwise the page of the URL made of \<^verbatim>\<open>http://\<close>, the endpoint, and the bucket and
  filename of the first such row.
\<close>

theorem resolve_strips_extension:
  "get_image c (Some (s @ ''.'' @ ext)) w = get_image c (Some s) w \<and>
   (CHR ''.'' \<notin> set s \<longrightarrow>
      get_image c (Some s) w =
        (case find (\<lambda>row. url row = s) (db w) of
           None \<Rightarrow> Body ''404''
         | Some row \<Rightarrow>
             Display_image (app_path c)
               (''http://'' @ aws_s3_endpoint c @ ''/'' @ bucket row @ ''/'' @ filename row)))"
proof -
  have "get_image c (Some (s @ ''.'' @ ext)) w = get_image c (Some s) w"
    by (cases "CHR ''.'' \<in> set s")
       (simp_all add: get_image_def before_first_dot_append before_first_dot_none)
  with get_image_find[of s c w] show ?thesis by simp
qed

theorem resolve_strips_extension_witness:
  "get_image example_config (Some ''abc123.png'') after_upload =
     get_image example_config (Some ''abc123'') after_upload \<and>
   get_image example_config (Some ''abc123'') after_upload =
     Display_image ''http://img.example'' ''http://s3.example.com/images/img/0f8fad5b.jpg'' \<and>
   get_image example_config (Some ''zzz999.png'') after_upload = Body ''404''"
proof -
  have d: "CHR ''.'' \<notin> set ''abc123''" "CHR ''.'' \<notin> set ''zzz999''" by simp_all
  show ?thesis
    using resolve_strips_extension[of example_config "''abc123''" "''png''" after_upload]
      resolve_strips_extension[of example_config "''zzz999''" "''png''" after_upload]
    by (simp add: after_upload_def cat_row_def example_config_def)
qed

lemma dotted_upload:
  "upload_img dotted_config dotted (post ''cat.jpg'' ''JFIF'') empty_world =
     Some (Inr (Body ''http://img.example/ab.cab.png''), dotted_world)"
  by (simp add: upload_img_def stage_defs example_defs name_defs select_where_url_def
        exists_def dotted_config_def dotted_def dotted_world_def dotted_row_def)

text \<open>
  The claim as stated fails for a shortcode with a dot, which the alphabet of the
  configuration may hold: the upload commits the shortcode \<^verbatim>\<open>ab.cab\<close>, line 116 cuts
  the name at its first dot, and resolving the shortcode gives \<^verbatim>\<open>404\<close> although the
  row is there.
\<close>

theorem resolve_dotted_counterexample:
  "upload_img dotted_config dotted (post ''cat.jpg'' ''JFIF'') empty_world =
     Some (Inr (Body ''http://img.example/ab.cab.png''), dotted_world) \<and>
   find (\<lambda>row. url row = ''ab.cab'') (db dotted_world) = Some dotted_row \<and>
   get_image dotted_config (Some ''ab.cab'') dotted_world = Body ''404''"
  using dotted_upload
  by (simp add: dotted_world_def dotted_row_def get_image_def before_first_dot_def
        select_where_url_def exists_def)

lemma foldr_insort_least:
  "\<forall>y \<in> set xs. f x < f y \<Longrightarrow>
     foldr (insort_key f) xs (x # zs) = x # foldr (insort_key f) xs zs"
  by (induction xs) (auto simp: not_le)

lemma sort_key_snoc_least:
  assumes "\<forall>y \<in> set xs. f x < f y"
  shows "sort_key f (xs @ [x]) = x # sort_key f xs"
  using foldr_insort_least[OF assms, of "[]"] by (simp add: sort_key_def)

lemma sorted_newest_first:
  "sorted (map (\<lambda>im. - image_timestamp im) ims) \<longleftrightarrow>
     sorted_wrt (\<lambda>a b. image_timestamp b \<le> image_timestamp a) ims"
  by (induction ims) auto

text \<open>
  C7, as amended. The listing holds every row once, newest first; rows of one
  timestamp stay in the order of the table, so the listing of a given table is always
  the same. A row created with a timestamp later than that of every row of the table
  comes first in the next listing.
\<close>

theorem listing_newest_first:
  "mset (get_images c w) = mset (map (to_image c) (db w)) \<and>
   sorted_wrt (\<lambda>a b. image_timestamp b \<le> image_timestamp a) (get_images c w) \<and>
   filter (\<lambda>im. image_timestamp im = t) (get_images c w) =
     filter (\<lambda>im. image_timestamp im = t) (map (to_image c) (db w)) \<and>
   (create row (db w) = Inr rows' \<and> (\<forall>old \<in> set (db w). timestamp old < timestamp row) \<longrightarrow>
      get_images c (w\<lparr>db := rows'\<rparr>) = to_image c row # get_images c w)"
proof -
  let ?key = "\<lambda>im. - image_timestamp im"
  have all: "mset (get_images c w) = mset (map (to_image c) (db w))"
    by (simp add: get_images_def)
  have "sorted (map ?key (get_images c w))"
    by (simp add: get_images_def)
  then have desc: "sorted_wrt (\<lambda>a b. image_timestamp b \<le> image_timestamp a) (get_images c w)"
    by (simp only: sorted_newest_first)
  have "filter (\<lambda>im. ?key im = - t) (sort_key ?key (map (to_image c) (db w))) =
          filter (\<lambda>im. ?key im = - t) (map (to_image c) (db w))"
    by (rule sort_key_stable)
  then have ties: "filter (\<lambda>im. image_timestamp im = t) (get_images c w) =
                     filter (\<lambda>im. image_timestamp im = t) (map (to_image c) (db w))"
    by (simp add: get_images_def)
  have first: "get_images c (w\<lparr>db := rows'\<rparr>) = to_image c row # get_images c w"
    if c: "create row (db w) = Inr rows'"
      and n: "\<forall>old \<in> set (db w). timestamp old < timestamp row"
  proof -
    from c have r: "rows' = db w @ [row]"
      by (simp add: create_def split: if_splits)
    from n have "\<forall>y \<in> set (map (to_image c) (db w)). ?key (to_image c row) < ?key y"
      by (simp add: to_image_def)
    from sort_key_snoc_least[OF this] r show ?thesis
      by (simp add: get_images_def)
  qed
  from all desc ties first show ?thesis by blast
qed

theorem listing_newest_first_witness:
  "create (dog_row\<lparr>timestamp := 1500000060\<rparr>) (db after_upload) =
     Inr [cat_row, dog_row\<lparr>timestamp := 1500000060\<rparr>] \<and>
   timestamp cat_row < timestamp (dog_row\<lparr>timestamp := 1500000060\<rparr>) \<and>
   map shortcode
     (get_images example_config (after_upload\<lparr>db := [cat_row, dog_row\<lparr>timestamp := 1500000060\<rparr>]\<rparr>))
     = [''zzz999'', ''abc123'']"
proof -
  have c: "create (dog_row\<lparr>timestamp := 1500000060\<rparr>) (db after_upload) =
             Inr [cat_row, dog_row\<lparr>timestamp := 1500000060\<rparr>]"
    by (simp add: create_def after_upload_def cat_row_def dog_row_def select_where_url_def
          exists_def)
  have n: "\<forall>old \<in> set (db after_upload).
             timestamp old < timestamp (dog_row\<lparr>timestamp := 1500000060\<rparr>)"
    by (simp add: after_upload_def cat_row_def dog_row_def)
  from listing_newest_first
         [of example_config "after_upload\<lparr>db := [cat_row, dog_row\<lparr>timestamp := 1500000060\<rparr>]\<rparr>"]
       listing_newest_first
         [of example_config after_upload _ "dog_row\<lparr>timestamp := 1500000060\<rparr>"
             "[cat_row, dog_row\<lparr>timestamp := 1500000060\<rparr>]"] c n
  have "get_images example_config
          (after_upload\<lparr>db := [cat_row, dog_row\<lparr>timestamp := 1500000060\<rparr>]\<rparr>) =
        to_image example_config (dog_row\<lparr>timestamp := 1500000060\<rparr>) #
          get_images example_config after_upload"
    by blast
  with c show ?thesis
    by (simp add: get_images_def after_upload_def cat_row_def dog_row_def to_image_def)
qed

text \<open>
  The claim as stated fails where two uploads fall in one second: \<^verbatim>\<open>time.time()\<close> is
  cut to whole seconds, the sort is stable, and the new row \<^verbatim>\<open>zzz999\<close> is listed
  after the older row \<^verbatim>\<open>abc123\<close>, not first.
\<close>

theorem listing_tie_counterexample:
  "now same_second = timestamp cat_row \<and>
   upload_img example_config same_second (post ''dog.png'' ''PNG'') after_upload =
     Some (Inr (Body ''http://img.example/zzz999.png''), after_second_upload) \<and>
   map shortcode (get_images example_config after_upload) = [''abc123''] \<and>
   map shortcode (get_images example_config after_second_upload) = [''abc123'', ''zzz999'']"
  by (simp add: upload_img_def stage_defs example_defs name_defs select_where_url_def
        exists_def after_upload_def cat_row_def dog_row_def after_second_upload_def
        same_second_def get_images_def to_image_def Let_def)

section \<open>Deletion\<close>

subsection \<open>The sanitised name\<close>

lemma filename_char_below: "filename_char ch \<Longrightarrow> (of_char ch :: nat) < 128"
  by (auto simp: filename_char_def)

lemma filename_char_no_slash: "filename_char ch \<Longrightarrow> ch \<noteq> CHR ''/''"
  by (auto simp: filename_char_def)

lemma filename_char_no_space: "filename_char ch \<Longrightarrow> \<not> is_space ch"
  by (auto simp: filename_char_def is_space_def)

lemma ascii_fold_char: "(of_char ch :: nat) < 128 \<Longrightarrow> ascii_fold nfkd (of_char ch) = [ch]"
  by (simp add: ascii_fold_def)

lemma ascii_text_codepoints:
  "\<forall>ch \<in> set s. (of_char ch :: nat) < 128 \<Longrightarrow> ascii_text nfkd (codepoints s) = s"
  by (induction s) (simp_all add: ascii_text_def codepoints_def ascii_fold_char)

lemma ascii_text_append:
  "ascii_text nfkd (xs @ ys) = ascii_text nfkd xs @ ascii_text nfkd ys"
  by (simp add: ascii_text_def)

lemma codepoints_empty: "codepoints s = [] \<longleftrightarrow> s = []"
  by (simp add: codepoints_def)

lemma split_ws_one_run:
  "\<forall>ch \<in> set s. \<not> is_space ch \<Longrightarrow>
     split_ws cur s = (if cur @ s = [] then [] else [cur @ s])"
  by (induction s arbitrary: cur) auto

lemma set_strip: "set (strip P s) \<subseteq> set s"
proof -
  have "set (dropWhile P (rev (dropWhile P s))) \<subseteq> set (rev (dropWhile P s))"
    by (auto dest: set_dropWhileD)
  also have "\<dots> \<subseteq> set s" by (auto dest: set_dropWhileD)
  finally show ?thesis by (simp add: strip_def)
qed

lemma dropWhile_fixed: "s = [] \<or> \<not> P (hd s) \<Longrightarrow> dropWhile P s = s"
  by (cases s) auto

lemma strip_fixed:
  assumes "s = [] \<or> (\<not> P (hd s) \<and> \<not> P (last s))"
  shows "strip P s = s"
proof -
  from assms have a: "dropWhile P s = s" by (auto intro: dropWhile_fixed)
  from assms have "rev s = [] \<or> \<not> P (hd (rev s))" by (auto simp: hd_rev)
  then have "dropWhile P (rev s) = rev s" by (rule dropWhile_fixed)
  with a show ?thesis by (simp add: strip_def)
qed

lemma last_dropWhile:
  assumes "dropWhile P xs \<noteq> []"
  shows "last (dropWhile P xs) = last xs"
proof -
  have "xs = takeWhile P xs @ dropWhile P xs" by simp
  then have "last xs = last (takeWhile P xs @ dropWhile P xs)" by simp
  also have "\<dots> = last (dropWhile P xs)" using assms by (rule last_appendR)
  finally show ?thesis by simp
qed

lemma strip_ends:
  "strip P s = [] \<or> (\<not> P (hd (strip P s)) \<and> \<not> P (last (strip P s)))"
proof (cases "strip P s = []")
  case True
  then show ?thesis by simp
next
  case False
  let ?u = "dropWhile P s"
  let ?v = "dropWhile P (rev ?u)"
  from False have v: "?v \<noteq> []" by (simp add: strip_def)
  have u: "?u \<noteq> []"
  proof
    assume "?u = []"
    then have "?v = []" by (simp only: rev.simps dropWhile.simps)
    with v show False ..
  qed
  from v have "\<not> P (hd ?v)" by (rule hd_dropWhile)
  then have l: "\<not> P (last (strip P s))" using v by (simp add: strip_def last_rev)
  have "hd (strip P s) = last ?v" using v by (simp add: strip_def hd_rev)
  also have "\<dots> = last (rev ?u)" using v by (rule last_dropWhile)
  also have "\<dots> = hd ?u" using u by (simp add: last_rev)
  finally have "hd (strip P s) = hd ?u" .
  moreover from u have "\<not> P (hd ?u)" by (rule hd_dropWhile)
  ultimately show ?thesis using l by simp
qed

lemma secure_filename_chars: "\<forall>ch \<in> set (secure_filename nfkd name). filename_char ch"
proof -
  have "set (secure_filename nfkd name) \<subseteq>
          set (filter filename_char
                 (join ''_'' (split_ws []
                    (map (\<lambda>ch. if ch = CHR ''/'' then CHR '' '' else ch)
                       (ascii_text nfkd name)))))"
    unfolding secure_filename_def Let_def by (rule set_strip)
  then show ?thesis by auto
qed

lemma secure_filename_fixed:
  assumes c: "\<forall>ch \<in> set s. filename_char ch"
    and e: "s = [] \<or> (\<not> (hd s = CHR ''.'' \<or> hd s = CHR ''_'') \<and>
                       \<not> (last s = CHR ''.'' \<or> last s = CHR ''_''))"
  shows "secure_filename nfkd (codepoints s) = s"
proof -
  from c have "\<forall>ch \<in> set s. (of_char ch :: nat) < 128"
    by (auto dest: filename_char_below)
  then have a: "ascii_text nfkd (codepoints s) = s" by (rule ascii_text_codepoints)
  have m: "map (\<lambda>ch. if ch = CHR ''/'' then CHR '' '' else ch) s = s"
  proof (rule map_idI)
    fix ch assume "ch \<in> set s"
    with c have "ch \<noteq> CHR ''/''" by (auto dest: filename_char_no_slash)
    then show "(if ch = CHR ''/'' then CHR '' '' else ch) = ch" by simp
  qed
  from c have "\<forall>ch \<in> set s. \<not> is_space ch" by (auto dest: filename_char_no_space)
  then have "split_ws [] s = (if s = [] then [] else [s])"
    using split_ws_one_run[of s "[]"] by simp
  then have j: "join ''_'' (split_ws [] s) = s" by simp
  from c have k: "filter filename_char s = s" by (simp add: filter_id_conv)
  from e have "strip (\<lambda>ch. ch = CHR ''.'' \<or> ch = CHR ''_'') s = s"
    by (rule strip_fixed)
  with a m j k show ?thesis by (simp add: secure_filename_def)
qed

lemma secure_filename_idem:
  "secure_filename nfkd (codepoints (secure_filename nfkd name)) = secure_filename nfkd name"
proof (rule secure_filename_fixed)
  show "\<forall>ch \<in> set (secure_filename nfkd name). filename_char ch"
    by (rule secure_filename_chars)
  show "secure_filename nfkd name = [] \<or>
          (\<not> (hd (secure_filename nfkd name) = CHR ''.'' \<or>
              hd (secure_filename nfkd name) = CHR ''_'') \<and>
           \<not> (last (secure_filename nfkd name) = CHR ''.'' \<or>
              last (secure_filename nfkd name) = CHR ''_''))"
    unfolding secure_filename_def Let_def
    by (rule strip_ends[of "\<lambda>ch. ch = CHR ''.'' \<or> ch = CHR ''_''"])
qed

subsection \<open>The deletion view\<close>

lemma find_Some_url:
  "find (\<lambda>row. url row = u) rows = Some row \<Longrightarrow> row \<in> set rows \<and> url row = u"
  by (induction rows) (auto split: if_splits)

lemma find_None_url: "find (\<lambda>row. url row = u) rows = None \<longleftrightarrow> u \<notin> url ` set rows"
  by (induction rows) auto

lemma delete_img_found:
  assumes "arg_filename r = Some name" and "name \<noteq> []"
  shows "delete_img nfkd c e r w =
           (case find (\<lambda>row. url row = secure_filename nfkd name) (db w) of
              None \<Rightarrow> (Inr (Body ''The image does not exist''), w)
            | Some found \<Rightarrow>
                if s3_delete_fails e then (Inl S3Error, w)
                else if delete_instance_fails e
                then (Inl OperationalError,
                      w\<lparr>s3 := (s3 w)((aws_s3_bucket_id c, filename found) := None)\<rparr>)
                else (Inr (deleted_response (arg_redirect r)),
                      w\<lparr>s3 := (s3 w)((aws_s3_bucket_id c, filename found) := None),
                        db := remove1 found (db w)\<rparr>))"
  using assms
  by (auto simp: delete_img_def exists_find hd_select s3_delete_def delete_instance_def Let_def
        split: option.splits)

lemma delete_img_lookup:
  assumes "name \<noteq> []"
  shows "delete_img nfkd c e \<lparr>arg_filename = Some name, arg_redirect = rd\<rparr> w =
           (case find (\<lambda>row. url row = secure_filename nfkd name) (db w) of
              None \<Rightarrow> (Inr (Body ''The image does not exist''), w)
            | Some found \<Rightarrow>
                if s3_delete_fails e then (Inl S3Error, w)
                else if delete_instance_fails e
                then (Inl OperationalError,
                      w\<lparr>s3 := (s3 w)((aws_s3_bucket_id c, filename found) := None)\<rparr>)
                else (Inr (deleted_response rd),
                      w\<lparr>s3 := (s3 w)((aws_s3_bucket_id c, filename found) := None),
                        db := remove1 found (db w)\<rparr>))"
  using assms
  by (auto simp: delete_img_def exists_find hd_select s3_delete_def delete_instance_def Let_def
        split: option.splits)

lemma url_gone_after_remove1:
  assumes "distinct (map url rows)" and "row \<in> set rows"
  shows "url row \<notin> url ` set (remove1 row rows)"
proof -
  from assms(1) have d: "distinct rows" and i: "inj_on url (set rows)"
    by (auto simp: distinct_map)
  from d have "set (remove1 row rows) = set rows - {row}" by (rule set_remove1_eq)
  with i assms(2) show ?thesis by (auto dest: inj_onD)
qed

text \<open>The shortcodes of the table stay distinct through a deletion.\<close>

lemma delete_keeps_shortcodes_distinct:
  assumes "distinct (map url (db w))"
  shows "distinct (map url (db (snd (delete_img nfkd c e r w))))"
proof -
  have "distinct (map url (remove1 row (db w)))" for row
  proof (cases "row \<in> set (db w)")
    case True
    from assms have d: "distinct (db w)" and i: "inj_on url (set (db w))"
      by (auto simp: distinct_map)
    from d have "set (remove1 row (db w)) \<subseteq> set (db w)" by (auto simp: set_remove1_eq)
    with i have "inj_on url (set (remove1 row (db w)))" by (rule inj_on_subset)
    with d show ?thesis by (simp add: distinct_map)
  next
    case False
    with assms show ?thesis by (simp add: remove1_idem)
  qed
  with assms show ?thesis
    by (auto simp: delete_img_def s3_delete_def delete_instance_def Let_def
          split: option.splits if_splits)
qed

text \<open>
  C8, as amended. For a shortcode that is not empty and that the sanitising leaves as
  it is: when no row has it, the response is that the image does not exist and the
  world is unchanged. When a row has it, the remote object is deleted first and the row
  second: if the object store raises, nothing has changed; if the registry raises, the
  row is still there; if neither raises, the row is gone, and when the shortcodes of the
  table are distinct and the shortcode has no dot, retrieving it afterwards gives
  \<^verbatim>\<open>404\<close>. For a row whose bucket is the configured one, the object that is deleted
  is the row's own, under its bucket and filename; of the object of a row of another
  bucket nothing is said.
\<close>

theorem delete_removes_object_then_record:
  fixes s :: string and c :: config and e :: env and rd :: "string option" and w :: world
  assumes "s \<noteq> []" and "secure_filename nfkd (codepoints s) = s"
  defines "out \<equiv> delete_img nfkd c e \<lparr>arg_filename = Some (codepoints s), arg_redirect = rd\<rparr> w"
  shows "(s \<notin> url ` set (db w) \<longrightarrow> out = (Inr (Body ''The image does not exist''), w)) \<and>
         (find (\<lambda>r. url r = s) (db w) = Some row \<longrightarrow>
            (s3_delete_fails e \<longrightarrow> out = (Inl S3Error, w)) \<and>
            (\<not> s3_delete_fails e \<and> delete_instance_fails e \<longrightarrow>
               fst out = Inl OperationalError \<and> db (snd out) = db w \<and>
               (bucket row = aws_s3_bucket_id c \<longrightarrow>
                  s3 (snd out) = (s3 w)((bucket row, filename row) := None))) \<and>
            (\<not> s3_delete_fails e \<and> \<not> delete_instance_fails e \<longrightarrow>
               fst out = Inr (deleted_response rd) \<and>
               db (snd out) = remove1 row (db w) \<and> disk (snd out) = disk w \<and>
               (bucket row = aws_s3_bucket_id c \<longrightarrow>
                  s3 (snd out) = (s3 w)((bucket row, filename row) := None)) \<and>
               (distinct (map url (db w)) \<and> CHR ''.'' \<notin> set s \<longrightarrow>
                  get_image c (Some s) (snd out) = Body ''404'')))"
proof -
  from assms(1) have n: "codepoints s \<noteq> []" by (simp add: codepoints_empty)
  note l = delete_img_lookup[OF n, of nfkd c e rd w, unfolded assms(2), folded out_def]
  have absent: "out = (Inr (Body ''The image does not exist''), w)"
    if "s \<notin> url ` set (db w)"
  proof -
    from that have "find (\<lambda>row. url row = s) (db w) = None" by (simp add: find_None_url)
    with l show ?thesis by simp
  qed
  have gone: "get_image c (Some s)
                (w\<lparr>s3 := (s3 w)((aws_s3_bucket_id c, filename row) := None),
                   db := remove1 row (db w)\<rparr>) = Body ''404''"
    if f: "find (\<lambda>r. url r = s) (db w) = Some row"
      and d: "distinct (map url (db w))" and dot: "CHR ''.'' \<notin> set s"
  proof -
    from find_Some_url[OF f] have "row \<in> set (db w)" and u: "url row = s" by simp_all
    with d have "s \<notin> url ` set (remove1 row (db w))"
      using url_gone_after_remove1[of "db w" row] by simp
    then have "find (\<lambda>r. url r = s) (remove1 row (db w)) = None"
      by (simp add: find_None_url)
    with dot show ?thesis by (simp add: get_image_find)
  qed
  from l absent gone show ?thesis by auto
qed

text \<open>Concrete names.\<close>

lemmas sanitize_defs = secure_filename_def ascii_text_codepoints is_space_def filename_char_def
  strip_def

lemma secure_abc123: "secure_filename nfkd (codepoints ''abc123'') = ''abc123''"
  by (simp add: sanitize_defs)

theorem delete_removes_object_then_record_witness:
  "secure_filename example_nfkd (codepoints ''abc123'') = ''abc123'' \<and>
   find (\<lambda>r. url r = ''abc123'') (db after_upload) = Some cat_row \<and>
   bucket cat_row = aws_s3_bucket_id example_config \<and>
   delete_img example_nfkd example_config calm (delete_of (codepoints ''abc123'')) after_upload =
     (Inr (Body ''The file has been deleted''),
      after_upload\<lparr>s3 := (s3 after_upload)((bucket cat_row, filename cat_row) := None),
                     db := []\<rparr>) \<and>
   get_image example_config (Some ''abc123'')
     (snd (delete_img example_nfkd example_config calm (delete_of (codepoints ''abc123''))
             after_upload)) = Body ''404''"
proof -
  let ?out = "delete_img example_nfkd example_config calm
                \<lparr>arg_filename = Some (codepoints ''abc123''), arg_redirect = None\<rparr> after_upload"
  have f: "find (\<lambda>r. url r = ''abc123'') (db after_upload) = Some cat_row"
    by (simp add: after_upload_def cat_row_def)
  have d: "distinct (map url (db after_upload))"
    by (simp add: after_upload_def)
  have n: "''abc123'' \<noteq> []" by simp
  have dot: "CHR ''.'' \<notin> set ''abc123''" by simp
  have b: "bucket cat_row = aws_s3_bucket_id example_config"
    by (simp add: cat_row_def example_config_def)
  have ok: "\<not> s3_delete_fails calm" "\<not> delete_instance_fails calm"
    by (simp_all add: calm_def)
  from delete_removes_object_then_record
         [OF n secure_abc123, where nfkd = example_nfkd and w = after_upload
            and c = example_config and e = calm and rd = None and row = cat_row]
       f d dot ok b
  have "fst ?out = Inr (deleted_response None) \<and>
        db (snd ?out) = remove1 cat_row (db after_upload) \<and>
        disk (snd ?out) = disk after_upload \<and>
        s3 (snd ?out) = (s3 after_upload)((bucket cat_row, filename cat_row) := None) \<and>
        get_image example_config (Some ''abc123'') (snd ?out) = Body ''404''"
    by blast
  moreover have "remove1 cat_row (db after_upload) = []"
    "deleted_response None = Body ''The file has been deleted''"
    by (simp_all add: after_upload_def deleted_response_def)
  ultimately have "?out =
      (Inr (Body ''The file has been deleted''),
       after_upload\<lparr>s3 := (s3 after_upload)((bucket cat_row, filename cat_row) := None),
                      db := []\<rparr>)"
    and "get_image example_config (Some ''abc123'') (snd ?out) = Body ''404''"
    by (simp_all add: prod_eq_iff)
  with f b secure_abc123 show ?thesis
    by (simp add: delete_of_def)
qed

text \<open>
  The claim as stated fails for a name that the sanitising changes: no row has the
  shortcode \<^verbatim>\<open>abc123!\<close>, and deleting it removes the row \<^verbatim>\<open>abc123\<close> and its
  object. It fails for a shortcode with a dot as well: once \<^verbatim>\<open>ab.cab\<close> is deleted,
  retrieving it shows the image of the row \<^verbatim>\<open>ab\<close>.
\<close>

theorem delete_unsanitized_counterexample:
  "''abc123!'' \<notin> url ` set (db after_upload) \<and>
   fst (delete_img example_nfkd example_config calm (delete_of (codepoints ''abc123!''))
          after_upload) = Inr (Body ''The file has been deleted'') \<and>
   db (snd (delete_img example_nfkd example_config calm (delete_of (codepoints ''abc123!''))
              after_upload)) = [] \<and>
   s3 after_upload (''images'', ''img/0f8fad5b.jpg'') = Some ''JFIF'' \<and>
   s3 (snd (delete_img example_nfkd example_config calm (delete_of (codepoints ''abc123!''))
              after_upload)) (''images'', ''img/0f8fad5b.jpg'') = None \<and>
   secure_filename example_nfkd (codepoints ''ab.cab'') = ''ab.cab'' \<and>
   map url (db two_lengths_world) = [''ab'', ''ab.cab''] \<and>
   fst (delete_img example_nfkd example_config calm (delete_of (codepoints ''ab.cab''))
          two_lengths_world) = Inr (Body ''The file has been deleted'') \<and>
   get_image example_config (Some ''ab.cab'')
     (snd (delete_img example_nfkd example_config calm (delete_of (codepoints ''ab.cab''))
             two_lengths_world)) =
     Display_image ''http://img.example'' ''http://s3.example.com/images/img/6fa459ea.gif''"
proof -
  have s1: "secure_filename example_nfkd (codepoints ''abc123!'') = ''abc123''"
    by (simp add: sanitize_defs)
  have s2: "secure_filename example_nfkd (codepoints ''ab.cab'') = ''ab.cab''"
    by (simp add: sanitize_defs)
  have n: "codepoints ''abc123!'' \<noteq> []" "codepoints ''ab.cab'' \<noteq> []"
    by (simp_all add: codepoints_def)
  show ?thesis
    by (simp add: delete_of_def delete_img_lookup[OF n(1)] delete_img_lookup[OF n(2)] s1 s2
          after_upload_def cat_row_def calm_def example_config_def deleted_response_def
          two_lengths_world_def short_row_def dotted_row_def get_image_def
          before_first_dot_def select_where_url_def exists_def)
qed

text \<open>
  C9. The deletion looks the sanitised name up. For a name that is not empty: when no
  row has the sanitised name as its shortcode, the image is said not to exist and
  nothing changes, whatever rows the name itself matches; when a row has it, that row
  is the one that is removed from the table once neither call raises, and the table is
  what it was when one of them raises. Deleting a name and deleting its sanitised form,
  when that form is not empty, are one and the same. A row whose shortcode differs from
  its own sanitised form is still in the table after any deletion request.
\<close>

theorem delete_looks_up_sanitized:
  fixes name :: "codepoint list" and c :: config and e :: env and rd :: "string option"
    and w :: world and nfkd :: "codepoint \<Rightarrow> codepoint list"
  defines "out \<equiv> delete_img nfkd c e \<lparr>arg_filename = Some name, arg_redirect = rd\<rparr> w"
  shows "(name \<noteq> [] \<longrightarrow>
            (case find (\<lambda>row. url row = secure_filename nfkd name) (db w) of
               None \<Rightarrow> out = (Inr (Body ''The image does not exist''), w)
             | Some found \<Rightarrow>
                 (s3_delete_fails e \<longrightarrow> out = (Inl S3Error, w)) \<and>
                 (\<not> s3_delete_fails e \<and> delete_instance_fails e \<longrightarrow>
                    fst out = Inl OperationalError \<and> db (snd out) = db w) \<and>
                 (\<not> s3_delete_fails e \<and> \<not> delete_instance_fails e \<longrightarrow>
                    fst out = Inr (deleted_response rd) \<and>
                    db (snd out) = remove1 found (db w)))) \<and>
         (name \<noteq> [] \<and> secure_filename nfkd name \<noteq> [] \<longrightarrow>
            out = delete_img nfkd c e
                    \<lparr>arg_filename = Some (codepoints (secure_filename nfkd name)),
                     arg_redirect = rd\<rparr> w) \<and>
         (row \<in> set (db w) \<and> secure_filename nfkd (codepoints (url row)) \<noteq> url row \<longrightarrow>
            row \<in> set (db (snd (delete_img nfkd c e r w))))"
proof -
  have looked_up:
    "case find (\<lambda>row. url row = secure_filename nfkd name) (db w) of
       None \<Rightarrow> out = (Inr (Body ''The image does not exist''), w)
     | Some found \<Rightarrow>
         (s3_delete_fails e \<longrightarrow> out = (Inl S3Error, w)) \<and>
         (\<not> s3_delete_fails e \<and> delete_instance_fails e \<longrightarrow>
            fst out = Inl OperationalError \<and> db (snd out) = db w) \<and>
         (\<not> s3_delete_fails e \<and> \<not> delete_instance_fails e \<longrightarrow>
            fst out = Inr (deleted_response rd) \<and>
            db (snd out) = remove1 found (db w))"
    if "name \<noteq> []"
    using delete_img_lookup[OF that, of nfkd c e rd w, folded out_def]
    by (simp split: option.splits)
  have same: "out = delete_img nfkd c e
                      \<lparr>arg_filename = Some (codepoints (secure_filename nfkd name)),
                       arg_redirect = rd\<rparr> w"
    if n: "name \<noteq> []" and m: "secure_filename nfkd name \<noteq> []"
  proof -
    from m have m': "codepoints (secure_filename nfkd name) \<noteq> []"
      by (simp add: codepoints_empty)
    show ?thesis
      unfolding out_def
      by (simp only: delete_img_lookup[OF n] delete_img_lookup[OF m'] secure_filename_idem)
  qed
  have kept: "row \<in> set (db (snd (delete_img nfkd c e r w)))"
    if m: "row \<in> set (db w)" and o: "secure_filename nfkd (codepoints (url row)) \<noteq> url row"
  proof (cases "\<exists>name. arg_filename r = Some name \<and> name \<noteq> []")
    case False
    then show ?thesis using m
      by (auto simp: delete_img_def split: option.splits)
  next
    case True
    then obtain name' where a: "arg_filename r = Some name'" and ne: "name' \<noteq> []"
      by blast
    note l = delete_img_found[OF a ne, of nfkd c e w]
    show ?thesis
    proof (cases "find (\<lambda>row. url row = secure_filename nfkd name') (db w)")
      case None
      with l m show ?thesis by simp
    next
      case (Some found)
      from find_Some_url[OF Some] have "url found = secure_filename nfkd name'" by simp
      then have "secure_filename nfkd (codepoints (url found)) = url found"
        by (simp add: secure_filename_idem)
      with o have "row \<noteq> found" by auto
      with m have "row \<in> set (remove1 found (db w))" by simp
      with l Some m show ?thesis by simp
    qed
  qed
  from looked_up same kept show ?thesis by blast
qed

lemma char_of_e: "char_of (101::nat) = CHR ''e''"
  by code_simp

lemma secure_cafe: "secure_filename example_nfkd cafe_accent = ''cafe''"
proof -
  have "ascii_text example_nfkd cafe_accent = ''cafe''"
    by (simp add: cafe_accent_def ascii_text_append ascii_text_codepoints)
       (simp add: ascii_text_def ascii_fold_def example_nfkd_def char_of_e)
  then show ?thesis
    by (simp add: secure_filename_def is_space_def filename_char_def strip_def)
qed

theorem delete_looks_up_sanitized_witness:
  "secure_filename example_nfkd cafe_accent = ''cafe'' \<and>
   find (\<lambda>row. url row = ''cafe'') (db cafe_world) = Some cafe_row \<and>
   fst (delete_img example_nfkd example_config calm (delete_of cafe_accent) cafe_world) =
     Inr (Body ''The file has been deleted'') \<and>
   db (snd (delete_img example_nfkd example_config calm (delete_of cafe_accent) cafe_world)) = [] \<and>
   secure_filename example_nfkd (codepoints (url odd_row)) = ''my_pic'' \<and>
   odd_row \<in> set (db (snd (delete_img example_nfkd example_config calm
                               (delete_of (codepoints ''my pic'')) odd_world)))"
proof -
  let ?out = "delete_img example_nfkd example_config calm
                \<lparr>arg_filename = Some cafe_accent, arg_redirect = None\<rparr> cafe_world"
  have n: "cafe_accent \<noteq> []" by (simp add: cafe_accent_def)
  have f: "find (\<lambda>row. url row = secure_filename example_nfkd cafe_accent) (db cafe_world) =
             Some cafe_row"
    by (simp add: secure_cafe cafe_world_def cafe_row_def)
  have ok: "\<not> s3_delete_fails calm" "\<not> delete_instance_fails calm"
    by (simp_all add: calm_def)
  have u: "url odd_row = ''my pic''" by (simp add: odd_row_def)
  have p: "secure_filename example_nfkd (codepoints ''my pic'') = ''my_pic''"
    by (simp add: sanitize_defs)
  have m: "odd_row \<in> set (db odd_world)" by (simp add: odd_world_def)
  have o: "secure_filename example_nfkd (codepoints (url odd_row)) \<noteq> url odd_row"
    by (simp add: u p)
  note t = delete_looks_up_sanitized
             [where name = cafe_accent and nfkd = example_nfkd and c = example_config
                and e = calm and rd = None and w = cafe_world and row = odd_row]
  from t n f ok have "fst ?out = Inr (deleted_response None) \<and>
                      db (snd ?out) = remove1 cafe_row (db cafe_world)"
    by simp
  moreover from delete_looks_up_sanitized
             [where nfkd = example_nfkd and c = example_config and e = calm and w = odd_world
                and row = odd_row and r = "delete_of (codepoints ''my pic'')"] m o
  have "odd_row \<in> set (db (snd (delete_img example_nfkd example_config calm
                                    (delete_of (codepoints ''my pic'')) odd_world)))"
    by blast
  moreover have "remove1 cafe_row (db cafe_world) = []"
    "deleted_response None = Body ''The file has been deleted''"
    by (simp_all add: cafe_world_def deleted_response_def)
  ultimately show ?thesis using f
    by (simp add: delete_of_def secure_cafe u p)
qed

text \<open>
  Line 186 names the configured bucket where lines 80 and 123 read the bucket of the
  row. For a row of another bucket the object that goes is not the row's own.
\<close>

lemma delete_names_configured_bucket:
  "fst (delete_img example_nfkd example_config calm (delete_of (codepoints ''old001''))
          archive_world) = Inr (Body ''The file has been deleted'') \<and>
   db (snd (delete_img example_nfkd example_config calm (delete_of (codepoints ''old001''))
              archive_world)) = [] \<and>
   s3 (snd (delete_img example_nfkd example_config calm (delete_of (codepoints ''old001''))
              archive_world)) (bucket archive_row, filename archive_row) = Some ''PNG-old'' \<and>
   s3 (snd (delete_img example_nfkd example_config calm (delete_of (codepoints ''old001''))
              archive_world)) (''images'', filename archive_row) = None"
proof -
  have s: "secure_filename example_nfkd (codepoints ''old001'') = ''old001''"
    by (simp add: sanitize_defs)
  have n: "codepoints ''old001'' \<noteq> []" by (simp add: codepoints_def)
  show ?thesis
    by (simp add: delete_of_def delete_img_lookup[OF n] s archive_world_def archive_row_def
          calm_def example_config_def deleted_response_def)
qed

end
